theory Spec2Isabelle
  imports Main "HOL-Library.Word" "HOL-Library.List_Lexorder"
begin

section \<open>Keys and key ranges of the host engine\<close>

text \<open>
  A JavaScript string is a sequence of UTF-16 code units. The prefix search of
  \<^verbatim>\<open>query.ts\<close> appends the code unit U+FFFF, which no 8-bit character holds, so
  strings used as keys are lists of 16-bit words; \<open>js\<close> embeds an ASCII literal.
\<close>

type_synonym jsstring = "16 word list"

definition js :: "string \<Rightarrow> jsstring" where
  "js s = map (\<lambda>c. of_nat (of_char c)) s"

text \<open>
  The keys the engine accepts (\<^verbatim>\<open>IDBValidKey\<close>): numbers, of any linearly ordered
  type \<open>'n\<close>, and strings. The engine orders every number below every string and
  compares strings code unit by code unit. Date, binary and array keys are left out.
\<close>

datatype 'n key = Num 'n | Str jsstring

instantiation key :: (linorder) linorder
begin

fun less_eq_key :: "'a key \<Rightarrow> 'a key \<Rightarrow> bool" where
  "less_eq_key (Num a) (Num b) = (a \<le> b)"
| "less_eq_key (Num a) (Str t) = True"
| "less_eq_key (Str s) (Num b) = False"
| "less_eq_key (Str s) (Str t) = (s \<le> t)"

definition less_key :: "'a key \<Rightarrow> 'a key \<Rightarrow> bool" where
  "less_key x y = (x \<le> y \<and> \<not> y \<le> x)"

instance
proof
  fix x y z :: "'a key"
  show "(x < y) = (x \<le> y \<and> \<not> y \<le> x)"
    by (simp add: less_key_def)
  show "x \<le> x"
    by (cases x) simp_all
  show "x \<le> y \<Longrightarrow> y \<le> z \<Longrightarrow> x \<le> z"
    by (cases x; cases y; cases z) auto
  show "x \<le> y \<Longrightarrow> y \<le> x \<Longrightarrow> x = y"
    by (cases x; cases y) auto
  show "x \<le> y \<or> y \<le> x"
    by (cases x; cases y) auto
qed

end

text \<open>The exceptions of the engine that this development names.\<close>

datatype dom_exception =
  NotFoundError | ConstraintError | DataError | AbortError | QuotaExceededError | UnknownError

text \<open>
  The bound descriptor \<^verbatim>\<open>IDBKeyRange\<close> with its four factory functions. An absent
  bound is \<open>None\<close>. \<^verbatim>\<open>IDBKeyRange.bound\<close> throws a \<^verbatim>\<open>DataError\<close> when the lower
  key is greater than the upper key, and when the two are equal and one end is open.
  The factories also throw for a value that is not a valid key; every value of type
  \<open>key\<close> is one, so the other three factories always give their descriptor.
\<close>

record 'n IDBKeyRange =
  lower :: "'n key option"
  upper :: "'n key option"
  lowerOpen :: bool
  upperOpen :: bool

definition only :: "'n key \<Rightarrow> 'n IDBKeyRange" where
  "only v = \<lparr>lower = Some v, upper = Some v, lowerOpen = False, upperOpen = False\<rparr>"

definition lowerBound :: "'n key \<Rightarrow> bool \<Rightarrow> 'n IDBKeyRange" where
  "lowerBound v opn = \<lparr>lower = Some v, upper = None, lowerOpen = opn, upperOpen = True\<rparr>"

definition upperBound :: "'n key \<Rightarrow> bool \<Rightarrow> 'n IDBKeyRange" where
  "upperBound v opn = \<lparr>lower = None, upper = Some v, lowerOpen = True, upperOpen = opn\<rparr>"

definition bound ::
  "('n::linorder) key \<Rightarrow> 'n key \<Rightarrow> bool \<Rightarrow> bool \<Rightarrow> dom_exception + 'n IDBKeyRange" where
  "bound lo hi lopn hopn =
     (if hi < lo \<or> (lo = hi \<and> (lopn \<or> hopn)) then Inl DataError
      else Inr \<lparr>lower = Some lo, upper = Some hi, lowerOpen = lopn, upperOpen = hopn\<rparr>)"

text \<open>\<^verbatim>\<open>IDBKeyRange.includes\<close>: the keys a descriptor contains.\<close>

definition range_includes :: "('n::linorder) IDBKeyRange \<Rightarrow> 'n key \<Rightarrow> bool" where
  "range_includes r k =
     ((case lower r of None \<Rightarrow> True
       | Some lo \<Rightarrow> if lowerOpen r then lo < k else lo \<le> k) \<and>
      (case upper r of None \<Rightarrow> True
       | Some hi \<Rightarrow> if upperOpen r then k < hi else k \<le> hi))"

section \<open>The condition translator (\<^verbatim>\<open>parseWhereCondition\<close>)\<close>

text \<open>
  \<^verbatim>\<open>WhereCondition\<close>: every field is optional; \<open>None\<close> is \<^verbatim>\<open>undefined\<close>.
  The argument of \<^verbatim>\<open>parseWhereCondition\<close> is either a bare key or such an object
  (\<^verbatim>\<open>isWhereConditionObject\<close>).
\<close>

record 'n WhereCondition =
  eq :: "'n key option"
  gt :: "'n key option"
  gte :: "'n key option"
  lt :: "'n key option"
  lte :: "'n key option"
  between :: "('n key \<times> 'n key) option"
  startsWith :: "jsstring option"

datatype 'n condition = Bare "'n key" | Cond "'n WhereCondition"

text \<open>The prefix followed by the code unit U+FFFF.\<close>

definition prefix_end :: "jsstring \<Rightarrow> jsstring" where
  "prefix_end p = p @ [0xFFFF]"

text \<open>
  A \<^verbatim>\<open>return\<close> of what a factory gives: its exception goes on to the caller.
\<close>

fun returned :: "dom_exception + 'a \<Rightarrow> dom_exception + 'a option" where
  "returned (Inl e) = Inl e"
| "returned (Inr r) = Inr (Some r)"

fun parseWhereCondition ::
  "('n::linorder) condition \<Rightarrow> dom_exception + 'n IDBKeyRange option" where
  "parseWhereCondition (Bare v) = Inr (Some (only v))"
| "parseWhereCondition (Cond c) =
    (if eq c \<noteq> None then Inr (Some (only (the (eq c))))
     else if between c \<noteq> None then
       returned (bound (fst (the (between c))) (snd (the (between c))) False False)
     else if startsWith c \<noteq> None then
       returned (bound (Str (the (startsWith c))) (Str (prefix_end (the (startsWith c))))
                   False False)
     else if gte c \<noteq> None \<and> lte c \<noteq> None then
       returned (bound (the (gte c)) (the (lte c)) False False)
     else if gt c \<noteq> None \<and> lt c \<noteq> None then
       returned (bound (the (gt c)) (the (lt c)) True True)
     else if gte c \<noteq> None \<and> lt c \<noteq> None then
       returned (bound (the (gte c)) (the (lt c)) False True)
     else if gt c \<noteq> None \<and> lte c \<noteq> None then
       returned (bound (the (gt c)) (the (lte c)) True False)
     else if gt c \<noteq> None then Inr (Some (lowerBound (the (gt c)) True))
     else if gte c \<noteq> None then Inr (Some (lowerBound (the (gte c)) False))
     else if lt c \<noteq> None then Inr (Some (upperBound (the (lt c)) True))
     else if lte c \<noteq> None then Inr (Some (upperBound (the (lte c)) False))
     else Inr None)"

subsection \<open>The precedence list of the specification\<close>

text \<open>
  The specification gives the translator as an ordered list of eleven forms, the first
  one that is present winning. \<open>present\<close> says which fields a form needs,
  \<open>emitted\<close> which descriptor it stands for, and \<open>translate\<close> takes the first form
  of the list that is present.
\<close>

datatype form =
  Equals | BetweenInclusive | StartsWithPrefix
  | GteLte | GtLt | GteLt | GtLte
  | GtOnly | GteOnly | LtOnly | LteOnly

definition precedence :: "form list" where
  "precedence =
     [Equals, BetweenInclusive, StartsWithPrefix, GteLte, GtLt, GteLt, GtLte,
      GtOnly, GteOnly, LtOnly, LteOnly]"

fun present :: "'n WhereCondition \<Rightarrow> form \<Rightarrow> bool" where
  "present c Equals = (eq c \<noteq> None)"
| "present c BetweenInclusive = (between c \<noteq> None)"
| "present c StartsWithPrefix = (startsWith c \<noteq> None)"
| "present c GteLte = (gte c \<noteq> None \<and> lte c \<noteq> None)"
| "present c GtLt = (gt c \<noteq> None \<and> lt c \<noteq> None)"
| "present c GteLt = (gte c \<noteq> None \<and> lt c \<noteq> None)"
| "present c GtLte = (gt c \<noteq> None \<and> lte c \<noteq> None)"
| "present c GtOnly = (gt c \<noteq> None)"
| "present c GteOnly = (gte c \<noteq> None)"
| "present c LtOnly = (lt c \<noteq> None)"
| "present c LteOnly = (lte c \<noteq> None)"

fun emitted :: "'n WhereCondition \<Rightarrow> form \<Rightarrow> 'n IDBKeyRange" where
  "emitted c Equals =
     \<lparr>lower = eq c, upper = eq c, lowerOpen = False, upperOpen = False\<rparr>"
| "emitted c BetweenInclusive =
     \<lparr>lower = Some (fst (the (between c))), upper = Some (snd (the (between c))),
      lowerOpen = False, upperOpen = False\<rparr>"
| "emitted c StartsWithPrefix =
     \<lparr>lower = Some (Str (the (startsWith c))),
      upper = Some (Str (the (startsWith c) @ [0xFFFF])),
      lowerOpen = False, upperOpen = False\<rparr>"
| "emitted c GteLte =
     \<lparr>lower = gte c, upper = lte c, lowerOpen = False, upperOpen = False\<rparr>"
| "emitted c GtLt =
     \<lparr>lower = gt c, upper = lt c, lowerOpen = True, upperOpen = True\<rparr>"
| "emitted c GteLt =
     \<lparr>lower = gte c, upper = lt c, lowerOpen = False, upperOpen = True\<rparr>"
| "emitted c GtLte =
     \<lparr>lower = gt c, upper = lte c, lowerOpen = True, upperOpen = False\<rparr>"
| "emitted c GtOnly =
     \<lparr>lower = gt c, upper = None, lowerOpen = True, upperOpen = True\<rparr>"
| "emitted c GteOnly =
     \<lparr>lower = gte c, upper = None, lowerOpen = False, upperOpen = True\<rparr>"
| "emitted c LtOnly =
     \<lparr>lower = None, upper = lt c, lowerOpen = True, upperOpen = True\<rparr>"
| "emitted c LteOnly =
     \<lparr>lower = None, upper = lte c, lowerOpen = True, upperOpen = False\<rparr>"

definition translate :: "'n WhereCondition \<Rightarrow> 'n IDBKeyRange option" where
  "translate c = map_option (emitted c) (find (present c) precedence)"

text \<open>
  The invariant of a bound descriptor: when both bounds are present the lower one is
  below the upper one, or equal to it with both ends closed. The engine refuses any
  other descriptor.
\<close>

definition well_formed :: "('n::linorder) IDBKeyRange \<Rightarrow> bool" where
  "well_formed r =
     (case lower r of None \<Rightarrow> True
      | Some lo \<Rightarrow>
          (case upper r of None \<Rightarrow> True
           | Some hi \<Rightarrow> lo < hi \<or> (lo = hi \<and> \<not> lowerOpen r \<and> \<not> upperOpen r)))"

section \<open>Promises and the completion bridge (\<^verbatim>\<open>utils.ts\<close>)\<close>

text \<open>
  A JavaScript promise settles once: \<open>resolve\<close> and \<open>reject\<close> act on a pending
  promise and leave a settled one as it is.
\<close>

datatype ('a, 'e) promise = Pending | Fulfilled 'a | Rejected 'e

definition resolve :: "'a \<Rightarrow> ('a, 'e) promise \<Rightarrow> ('a, 'e) promise" where
  "resolve v p = (case p of Pending \<Rightarrow> Fulfilled v | _ \<Rightarrow> p)"

definition reject :: "'e \<Rightarrow> ('a, 'e) promise \<Rightarrow> ('a, 'e) promise" where
  "reject e p = (case p of Pending \<Rightarrow> Rejected e | _ \<Rightarrow> p)"

text \<open>What an \<^verbatim>\<open>async\<close> function returns after awaiting \<open>p\<close> and mapping its value.\<close>

fun then_promise :: "('a \<Rightarrow> 'b) \<Rightarrow> ('a, 'e) promise \<Rightarrow> ('b, 'e) promise" where
  "then_promise f Pending = Pending"
| "then_promise f (Fulfilled v) = Fulfilled (f v)"
| "then_promise f (Rejected e) = Rejected e"

text \<open>
  The reasons a promise of this library is rejected with: an engine exception,
  \<^verbatim>\<open>null\<close> (a \<^verbatim>\<open>transaction.error\<close> that is not set), or a JavaScript
  \<^verbatim>\<open>Error\<close> with its message.
\<close>

datatype reason = DOMException dom_exception | Null | Error string

text \<open>Rejecting with \<^verbatim>\<open>transaction.error\<close>, which is an exception or \<^verbatim>\<open>null\<close>.\<close>

fun error_value :: "dom_exception option \<Rightarrow> reason" where
  "error_value None = Null"
| "error_value (Some e) = DOMException e"

text \<open>
  The events the engine fires on a transaction. An error or abort event carries what
  \<^verbatim>\<open>transaction.error\<close> reads when its handler runs.
\<close>

datatype tx_event =
  Complete | ErrorEvent "dom_exception option" | AbortEvent "dom_exception option"

fun on_tx_event :: "(unit, reason) promise \<Rightarrow> tx_event \<Rightarrow> (unit, reason) promise" where
  "on_tx_event p Complete = resolve () p"
| "on_tx_event p (ErrorEvent err) = reject (error_value err) p"
| "on_tx_event p (AbortEvent err) =
     reject (case err of Some e \<Rightarrow> DOMException e
             | None \<Rightarrow> Error ''Transaction aborted'') p"

text \<open>
  \<^verbatim>\<open>promisifyTransaction\<close> installs the three handlers on a new promise; the result
  is the promise after the events the engine fires on the transaction, in their order.
\<close>

definition promisifyTransaction :: "tx_event list \<Rightarrow> (unit, reason) promise" where
  "promisifyTransaction evs = foldl on_tx_event Pending evs"

section \<open>The query plan and its builders (\<^verbatim>\<open>query.ts\<close>)\<close>

datatype SortOrder = Asc | Desc

text \<open>\<^verbatim>\<open>QueryState\<close>. The field \<^verbatim>\<open>range\<close> is named \<open>keyRange\<close> here.\<close>

record 'n QueryState =
  indexName :: "string option"
  useKey :: bool
  keyRange :: "'n IDBKeyRange option"
  order :: SortOrder
  limitCount :: "nat option"
  offsetCount :: nat

text \<open>
  A stored record is an object: a finite map from field names to field values. The
  builders hold the store's name, the plan and the store's default values; the
  connection they also hold is passed to the terminal operations as the database
  they read.
\<close>

type_synonym 'f obj = "string \<rightharpoonup> 'f"

record ('n, 'f) FinalQueryBuilderImpl =
  storeName :: string
  state :: "'n QueryState"
  defaults :: "'f obj"

record 'f IndexQueryBuilderImpl =
  ib_storeName :: string
  ib_indexName :: "string option"
  ib_useKey :: bool
  ib_defaults :: "'f obj"

record 'f QueryBuilderImpl =
  qb_storeName :: string
  qb_defaults :: "'f obj"

definition orderBy ::
  "SortOrder \<Rightarrow> ('n, 'f) FinalQueryBuilderImpl \<Rightarrow> ('n, 'f) FinalQueryBuilderImpl" where
  "orderBy ord b = b\<lparr>state := (state b)\<lparr>order := ord\<rparr>\<rparr>"

definition limit ::
  "nat \<Rightarrow> ('n, 'f) FinalQueryBuilderImpl \<Rightarrow> ('n, 'f) FinalQueryBuilderImpl" where
  "limit n b = b\<lparr>state := (state b)\<lparr>limitCount := Some n\<rparr>\<rparr>"

definition offset ::
  "nat \<Rightarrow> ('n, 'f) FinalQueryBuilderImpl \<Rightarrow> ('n, 'f) FinalQueryBuilderImpl" where
  "offset n b = b\<lparr>state := (state b)\<lparr>offsetCount := n\<rparr>\<rparr>"

definition createFinal ::
  "'f IndexQueryBuilderImpl \<Rightarrow> 'n IDBKeyRange option \<Rightarrow> ('n, 'f) FinalQueryBuilderImpl" where
  "createFinal ib r =
     \<lparr>storeName = ib_storeName ib,
      state = \<lparr>indexName = ib_indexName ib, useKey = ib_useKey ib, keyRange = r,
               order = Asc, limitCount = None, offsetCount = 0\<rparr>,
      defaults = ib_defaults ib\<rparr>"

definition ib_equals :: "'f IndexQueryBuilderImpl \<Rightarrow> 'n key \<Rightarrow> ('n, 'f) FinalQueryBuilderImpl" where
  "ib_equals ib v = createFinal ib (Some (only v))"

definition ib_gt :: "'f IndexQueryBuilderImpl \<Rightarrow> 'n key \<Rightarrow> ('n, 'f) FinalQueryBuilderImpl" where
  "ib_gt ib v = createFinal ib (Some (lowerBound v True))"

definition ib_gte :: "'f IndexQueryBuilderImpl \<Rightarrow> 'n key \<Rightarrow> ('n, 'f) FinalQueryBuilderImpl" where
  "ib_gte ib v = createFinal ib (Some (lowerBound v False))"

definition ib_lt :: "'f IndexQueryBuilderImpl \<Rightarrow> 'n key \<Rightarrow> ('n, 'f) FinalQueryBuilderImpl" where
  "ib_lt ib v = createFinal ib (Some (upperBound v True))"

definition ib_lte :: "'f IndexQueryBuilderImpl \<Rightarrow> 'n key \<Rightarrow> ('n, 'f) FinalQueryBuilderImpl" where
  "ib_lte ib v = createFinal ib (Some (upperBound v False))"

text \<open>
  The two selectors that call \<^verbatim>\<open>IDBKeyRange.bound\<close> throw what it throws, before any
  plan is built.
\<close>

definition ib_between ::
  "'f IndexQueryBuilderImpl \<Rightarrow> ('n::linorder) key \<Rightarrow> 'n key
   \<Rightarrow> dom_exception + ('n, 'f) FinalQueryBuilderImpl" where
  "ib_between ib lo hi =
     (case bound lo hi False False of
        Inl e \<Rightarrow> Inl e
      | Inr r \<Rightarrow> Inr (createFinal ib (Some r)))"

definition ib_startsWith ::
  "'f IndexQueryBuilderImpl \<Rightarrow> jsstring
   \<Rightarrow> dom_exception + (('n::linorder), 'f) FinalQueryBuilderImpl" where
  "ib_startsWith ib p =
     (case bound (Str p) (Str (prefix_end p)) False False of
        Inl e \<Rightarrow> Inl e
      | Inr r \<Rightarrow> Inr (createFinal ib (Some r)))"

definition index :: "'f QueryBuilderImpl \<Rightarrow> string \<Rightarrow> 'f IndexQueryBuilderImpl" where
  "index qb n =
     \<lparr>ib_storeName = qb_storeName qb, ib_indexName = Some n, ib_useKey = False,
      ib_defaults = qb_defaults qb\<rparr>"

definition keyBuilder :: "'f QueryBuilderImpl \<Rightarrow> 'f IndexQueryBuilderImpl" where
  "keyBuilder qb =
     \<lparr>ib_storeName = qb_storeName qb, ib_indexName = None, ib_useKey = True,
      ib_defaults = qb_defaults qb\<rparr>"

definition qb_startsWith ::
  "'f QueryBuilderImpl \<Rightarrow> jsstring
   \<Rightarrow> dom_exception + (('n::linorder), 'f) FinalQueryBuilderImpl" where
  "qb_startsWith qb p = ib_startsWith (keyBuilder qb) p"

definition qb_equals :: "'f QueryBuilderImpl \<Rightarrow> 'n key \<Rightarrow> ('n, 'f) FinalQueryBuilderImpl" where
  "qb_equals qb v = ib_equals (keyBuilder qb) v"

section \<open>The host engine as the query executor sees it\<close>

text \<open>
  An object store holds its records in ascending order of their primary keys, and for
  every index the same records in ascending order of the index key (records with equal
  index keys in ascending order of their primary keys). Each entry pairs the key with
  the record. A database maps the names of its object stores to them.
\<close>

record ('n, 'f) object_store =
  records :: "('n key \<times> 'f obj) list"
  indexes :: "string \<rightharpoonup> ('n key \<times> 'f obj) list"

type_synonym ('n, 'f) database = "string \<rightharpoonup> ('n, 'f) object_store"

text \<open>The entries of a source (a store or an index) that a bound selects, in the
  source's ascending order; no bound selects all.\<close>

definition matching ::
  "('n::linorder key \<times> 'v) list \<Rightarrow> 'n IDBKeyRange option \<Rightarrow> ('n key \<times> 'v) list" where
  "matching src r =
     (case r of None \<Rightarrow> src | Some b \<Rightarrow> filter (\<lambda>(k, v). range_includes b k) src)"

text \<open>
  The three native requests: \<^verbatim>\<open>getAll\<close> returns the selected records in ascending
  order, \<^verbatim>\<open>count\<close> their number, and a cursor visits them in ascending order when
  opened with \<^verbatim>\<open>next\<close> and in descending order when opened with \<^verbatim>\<open>prev\<close>.
\<close>

datatype direction = Next | Prev

definition native_getAll :: "('n::linorder key \<times> 'v) list \<Rightarrow> 'n IDBKeyRange option \<Rightarrow> 'v list" where
  "native_getAll src r = map snd (matching src r)"

definition native_count :: "('n::linorder key \<times> 'v) list \<Rightarrow> 'n IDBKeyRange option \<Rightarrow> nat" where
  "native_count src r = length (matching src r)"

definition native_cursor ::
  "('n::linorder key \<times> 'v) list \<Rightarrow> 'n IDBKeyRange option \<Rightarrow> direction \<Rightarrow> 'v list" where
  "native_cursor src r d =
     (case d of Next \<Rightarrow> map snd (matching src r) | Prev \<Rightarrow> rev (map snd (matching src r)))"

text \<open>
  How a transaction of a query ends: it completes; or an error event reaches it after
  the request has notified \<open>n\<close> times, with \<^verbatim>\<open>transaction.error\<close> reading \<open>e\<close>;
  or it is aborted after \<open>n\<close> notifications with no error event, only an abort event,
  for which \<^verbatim>\<open>query.ts\<close> installs no handler.
\<close>

datatype engine_run = Completes | Fails nat "dom_exception option" | Aborts nat

text \<open>What a cursor request notifies its \<^verbatim>\<open>onsuccess\<close> handler of, and the
  notifications of one run over the records the cursor visits.\<close>

datatype 'v notification = At 'v | AtEnd | Failure "dom_exception option"

fun notifications :: "engine_run \<Rightarrow> 'v list \<Rightarrow> 'v notification list" where
  "notifications Completes vs = map At vs @ [AtEnd]"
| "notifications (Fails n e) vs = map At (take n vs) @ [Failure e]"
| "notifications (Aborts n) vs = map At (take n vs)"

text \<open>The calls the library makes on the engine, in the order it makes them.\<close>

datatype mode = ReadOnly | ReadWrite

datatype 'n native_call =
  TransactionCall "string list" mode
  | GetAllCall "string option" "'n IDBKeyRange option"
  | CountCall "string option" "'n IDBKeyRange option"
  | OpenCursorCall "string option" "'n IDBKeyRange option" direction
  | ContinueCall

text \<open>
  \<^verbatim>\<open>indexName ? store.index(indexName) : store\<close>: an index name that is absent or
  the empty string is falsy and selects the store itself; \<^verbatim>\<open>store.index\<close> throws
  when the store has no index of that name.
\<close>

definition truthy :: "string option \<Rightarrow> bool" where
  "truthy n = (n \<noteq> None \<and> n \<noteq> Some [])"

definition chosen :: "string option \<Rightarrow> string option" where
  "chosen n = (if truthy n then n else None)"

definition source_of ::
  "('n, 'f) object_store \<Rightarrow> string option \<Rightarrow> dom_exception + ('n key \<times> 'f obj) list" where
  "source_of st n =
     (if truthy n then
        (case indexes st (the n) of None \<Rightarrow> Inl NotFoundError | Some ix \<Rightarrow> Inr ix)
      else Inr (records st))"

section \<open>The query executor (\<^verbatim>\<open>FinalQueryBuilderImpl\<close>)\<close>

text \<open>
  The default-value overlay \<^verbatim>\<open>hasDefaults ? { ...defaults, ...value } : value\<close>:
  the fields of the record win over the defaults.
\<close>

definition withDefaults :: "'f obj \<Rightarrow> 'f obj \<Rightarrow> 'f obj" where
  "withDefaults d v = (if d \<noteq> Map.empty then d ++ v else v)"

text \<open>
  The variables of the cursor path: the results gathered, the two counters, the promise
  being settled, and the number of calls of \<^verbatim>\<open>cursor.continue()\<close> made so far.
\<close>

record 'v cursor_state =
  results :: "'v list"
  skipped :: nat
  collected :: nat
  settled :: "('v list, reason) promise"
  continues :: nat

definition cursor_start :: "'v cursor_state" where
  "cursor_start = \<lparr>results = [], skipped = 0, collected = 0, settled = Pending, continues = 0\<rparr>"

text \<open>
  The handlers of the cursor path, run over the notifications of the request. The
  handler of \<^verbatim>\<open>onsuccess\<close> is followed line by line; after a notification at which
  it does not call \<^verbatim>\<open>continue\<close>, no further one is delivered.
\<close>

fun cursor_walk ::
  "nat option \<Rightarrow> nat \<Rightarrow> ('v \<Rightarrow> 'v) \<Rightarrow> 'v cursor_state \<Rightarrow> 'v notification list \<Rightarrow> 'v cursor_state"
  where
  "cursor_walk lim off ov st [] = st"
| "cursor_walk lim off ov st (Failure e # ns) =
     st\<lparr>settled := reject (error_value e) (settled st)\<rparr>"
| "cursor_walk lim off ov st (AtEnd # ns) =
     st\<lparr>settled := resolve (results st) (settled st)\<rparr>"
| "cursor_walk lim off ov st (At v # ns) =
     (if skipped st < off then
        cursor_walk lim off ov (st\<lparr>skipped := skipped st + 1, continues := continues st + 1\<rparr>) ns
      else
        let st1 = (if lim = None \<or> collected st < the lim
                   then st\<lparr>results := results st @ [ov v], collected := collected st + 1\<rparr>
                   else st)
        in if lim \<noteq> None \<and> collected st1 \<ge> the lim
           then st1\<lparr>settled := resolve (results st1) (settled st1)\<rparr>
           else cursor_walk lim off ov (st1\<lparr>continues := continues st1 + 1\<rparr>) ns)"

text \<open>
  \<^verbatim>\<open>executeQuery\<close>, with the promise it returns and the calls it makes on the engine.
  \<^verbatim>\<open>db.transaction\<close> throws when the store does not exist; an exception thrown inside
  the promise's executor rejects the promise.
\<close>

definition executeQuery ::
  "('n::linorder, 'f) database \<Rightarrow> ('n, 'f) FinalQueryBuilderImpl \<Rightarrow> engine_run
   \<Rightarrow> ('f obj list, reason) promise \<times> 'n native_call list" where
  "executeQuery db b run =
     (let q = state b; tx = TransactionCall [storeName b] ReadOnly in
      case db (storeName b) of
        None \<Rightarrow> (Rejected (DOMException NotFoundError), [tx])
      | Some store \<Rightarrow>
          if offsetCount q > 0 \<or> limitCount q \<noteq> None then
            (case source_of store (indexName q) of
               Inl e \<Rightarrow> (Rejected (DOMException e), [tx])
             | Inr source \<Rightarrow>
                 let direction = (if order q = Desc then Prev else Next);
                     fin = cursor_walk (limitCount q) (offsetCount q) (withDefaults (defaults b))
                             cursor_start
                             (notifications run (native_cursor source (keyRange q) direction))
                 in (settled fin,
                     [tx, OpenCursorCall (chosen (indexName q)) (keyRange q) direction]
                       @ replicate (continues fin) ContinueCall))
          else
            (case source_of store (indexName q) of
               Inl e \<Rightarrow> (Rejected (DOMException e), [tx])
             | Inr source \<Rightarrow>
                 (case run of
                    Completes \<Rightarrow>
                      let res = native_getAll source (keyRange q);
                          res1 = (if defaults b \<noteq> Map.empty
                                  then map (\<lambda>v. defaults b ++ v) res else res);
                          res2 = (if order q = Desc then rev res1 else res1)
                      in Fulfilled res2
                  | Fails n e \<Rightarrow> Rejected (error_value e)
                  | Aborts n \<Rightarrow> Pending,
                  [tx, GetAllCall (chosen (indexName q)) (keyRange q)])))"

definition findAll ::
  "('n::linorder, 'f) database \<Rightarrow> ('n, 'f) FinalQueryBuilderImpl \<Rightarrow> engine_run
   \<Rightarrow> ('f obj list, reason) promise \<times> 'n native_call list" where
  "findAll db b run = executeQuery db b run"

text \<open>\<^verbatim>\<open>results[0]\<close>, which is \<^verbatim>\<open>undefined\<close> for an empty array.\<close>

fun first :: "'a list \<Rightarrow> 'a option" where
  "first [] = None"
| "first (x # xs) = Some x"


text \<open>\<^verbatim>\<open>count\<close>: the promise is resolved with \<^verbatim>\<open>request.result\<close> when the transaction
  completes and rejected with \<^verbatim>\<open>tx.error\<close> at an error event; no handler is
  installed for an abort event, which leaves the promise pending.\<close>

definition count ::
  "('n::linorder, 'f) database \<Rightarrow> ('n, 'f) FinalQueryBuilderImpl \<Rightarrow> engine_run
   \<Rightarrow> (nat, reason) promise \<times> 'n native_call list" where
  "count db b run =
     (let q = state b; tx = TransactionCall [storeName b] ReadOnly in
      case db (storeName b) of
        None \<Rightarrow> (Rejected (DOMException NotFoundError), [tx])
      | Some store \<Rightarrow>
          (case source_of store (indexName q) of
             Inl e \<Rightarrow> (Rejected (DOMException e), [tx])
           | Inr source \<Rightarrow>
               (case run of
                  Completes \<Rightarrow> Fulfilled (native_count source (keyRange q))
                | Fails n e \<Rightarrow> Rejected (error_value e)
                | Aborts n \<Rightarrow> Pending,
                [tx, CountCall (chosen (indexName q)) (keyRange q)])))"

section \<open>Transaction chains (\<^verbatim>\<open>writeChain.ts\<close>, \<^verbatim>\<open>readChain.ts\<close>)\<close>

text \<open>A request argument that is a key or a key range.\<close>

datatype 'n key_or_range = AKey "'n key" | ARange "'n IDBKeyRange"

datatype ('n, 'v) WriteOperation =
  Put string 'v "'n key option"
  | Add string 'v "'n key option"
  | Delete string "'n key_or_range"
  | Clear string

datatype 'n ReadOperation =
  Get string "'n key"
  | GetAll string "'n key_or_range option" "nat option"
  | GetAllByIndex string string "'n key_or_range option"
  | Count string "'n key_or_range option"

fun w_storeName :: "('n, 'v) WriteOperation \<Rightarrow> string" where
  "w_storeName (Put s v k) = s"
| "w_storeName (Add s v k) = s"
| "w_storeName (Delete s k) = s"
| "w_storeName (Clear s) = s"

fun r_storeName :: "'n ReadOperation \<Rightarrow> string" where
  "r_storeName (Get s k) = s"
| "r_storeName (GetAll s q c) = s"
| "r_storeName (GetAllByIndex s i q) = s"
| "r_storeName (Count s q) = s"

text \<open>
  A chain is the pair of variables its methods close over: the store names given at
  creation and the array of queued operations. The chains of the source have no other
  state.
\<close>

record ('n, 'v) write_chain =
  w_storeNames :: "string list"
  w_operations :: "('n, 'v) WriteOperation list"

record 'n read_chain =
  r_storeNames :: "string list"
  r_operations :: "'n ReadOperation list"

definition createWriteChain :: "string list \<Rightarrow> ('n, 'v) write_chain" where
  "createWriteChain names = \<lparr>w_storeNames = names, w_operations = []\<rparr>"

definition createReadChain :: "string list \<Rightarrow> 'n read_chain" where
  "createReadChain names = \<lparr>r_storeNames = names, r_operations = []\<rparr>"

definition put :: "string \<Rightarrow> 'v \<Rightarrow> 'n key option \<Rightarrow> ('n, 'v) write_chain \<Rightarrow> ('n, 'v) write_chain" where
  "put s v k ch = ch\<lparr>w_operations := w_operations ch @ [Put s v k]\<rparr>"

definition add :: "string \<Rightarrow> 'v \<Rightarrow> 'n key option \<Rightarrow> ('n, 'v) write_chain \<Rightarrow> ('n, 'v) write_chain" where
  "add s v k ch = ch\<lparr>w_operations := w_operations ch @ [Add s v k]\<rparr>"


definition clear :: "string \<Rightarrow> ('n, 'v) write_chain \<Rightarrow> ('n, 'v) write_chain" where
  "clear s ch = ch\<lparr>w_operations := w_operations ch @ [Clear s]\<rparr>"

definition get :: "string \<Rightarrow> 'n key \<Rightarrow> 'n read_chain \<Rightarrow> 'n read_chain" where
  "get s k ch = ch\<lparr>r_operations := r_operations ch @ [Get s k]\<rparr>"

definition getAll ::
  "string \<Rightarrow> ('n key_or_range option \<times> nat option) option \<Rightarrow> 'n read_chain \<Rightarrow> 'n read_chain" where
  "getAll s options ch =
     ch\<lparr>r_operations := r_operations ch @
          [GetAll s (case options of None \<Rightarrow> None | Some g \<Rightarrow> fst g)
                    (case options of None \<Rightarrow> None | Some g \<Rightarrow> snd g)]\<rparr>"

definition getAllByIndex ::
  "string \<Rightarrow> string \<Rightarrow> 'n key_or_range option \<Rightarrow> 'n read_chain \<Rightarrow> 'n read_chain" where
  "getAllByIndex s i q ch = ch\<lparr>r_operations := r_operations ch @ [GetAllByIndex s i q]\<rparr>"

definition count_op :: "string \<Rightarrow> 'n key_or_range option \<Rightarrow> 'n read_chain \<Rightarrow> 'n read_chain" where
  "count_op s q ch = ch\<lparr>r_operations := r_operations ch @ [Count s q]\<rparr>"

text \<open>
  \<^verbatim>\<open>[...new Set(names)]\<close>: the distinct names in the order of their first occurrence.
\<close>

definition usedStores :: "string list \<Rightarrow> string list" where
  "usedStores names = foldl (\<lambda>seen s. if s \<in> set seen then seen else seen @ [s]) [] names"

text \<open>\<^verbatim>\<open>storeNames.join(', ')\<close> and the message of the error thrown for a store that is
  not among the chain's store names.\<close>

fun join :: "string \<Rightarrow> string list \<Rightarrow> string" where
  "join sep [] = []"
| "join sep [x] = x"
| "join sep (x # y # ys) = x @ sep @ join sep (y # ys)"

definition scope_message :: "string \<Rightarrow> string list \<Rightarrow> string" where
  "scope_message store names =
     ''Store '' @ [CHR 0x22] @ store @ [CHR 0x22] @ '' is not in the transaction scope. ''
       @ ''Available stores: '' @ join '', '' names"

text \<open>
  The connection: the engine's storage and the calls of \<^verbatim>\<open>db.transaction\<close> made on
  it so far, each with its store names and mode. What
  the engine does with one transaction is a parameter: from the store names, the mode,
  the requests issued in their order and the storage, it gives either the exception
  that \<^verbatim>\<open>db.transaction\<close> or a request threw, or the events it fires on the
  transaction with the results of the requests, and in both cases the storage left.
\<close>

record 's connection =
  storage :: 's
  opened :: "(string list \<times> mode) list"

datatype 'r tx_outcome = Throws dom_exception | Fires "tx_event list" "'r list"

type_synonym ('s, 'op, 'r) engine =
  "string list \<Rightarrow> mode \<Rightarrow> 'op list \<Rightarrow> 's \<Rightarrow> 'r tx_outcome \<times> 's"

definition transaction ::
  "('s, 'op, 'r) engine \<Rightarrow> string list \<Rightarrow> mode \<Rightarrow> 'op list \<Rightarrow> 's connection
   \<Rightarrow> 'r tx_outcome \<times> 's connection" where
  "transaction eng names m ops c =
     (let r = eng names m ops (storage c)
      in (fst r, \<lparr>storage = snd r, opened = opened c @ [(names, m)]\<rparr>))"

text \<open>\<^verbatim>\<open>execute\<close> of the write chain.\<close>

definition execute_write ::
  "('s, ('n, 'v) WriteOperation, 'r) engine \<Rightarrow> ('n, 'v) write_chain \<Rightarrow> 's connection
   \<Rightarrow> (unit, reason) promise \<times> 's connection" where
  "execute_write eng ch c =
     (if w_operations ch = [] then (Fulfilled (), c)
      else
        case find (\<lambda>s. s \<notin> set (w_storeNames ch))
                  (usedStores (map w_storeName (w_operations ch))) of
          Some s \<Rightarrow> (Rejected (Error (scope_message s (w_storeNames ch))), c)
        | None \<Rightarrow>
            let r = transaction eng (w_storeNames ch) ReadWrite (w_operations ch) c
            in (case fst r of
                  Throws e \<Rightarrow> Rejected (DOMException e)
                | Fires evs rs \<Rightarrow> promisifyTransaction evs,
                snd r))"

text \<open>\<^verbatim>\<open>execute\<close> of the read chain: after the transaction's promise is fulfilled, the
  results of the requests in the order of the queue.\<close>

definition execute_read ::
  "('s, 'n ReadOperation, 'r) engine \<Rightarrow> 'n read_chain \<Rightarrow> 's connection
   \<Rightarrow> ('r list, reason) promise \<times> 's connection" where
  "execute_read eng ch c =
     (if r_operations ch = [] then (Fulfilled [], c)
      else
        case find (\<lambda>s. s \<notin> set (r_storeNames ch))
                  (usedStores (map r_storeName (r_operations ch))) of
          Some s \<Rightarrow> (Rejected (Error (scope_message s (r_storeNames ch))), c)
        | None \<Rightarrow>
            let r = transaction eng (r_storeNames ch) ReadOnly (r_operations ch) c
            in (case fst r of
                  Throws e \<Rightarrow> Rejected (DOMException e)
                | Fires evs rs \<Rightarrow> then_promise (\<lambda>u. rs) (promisifyTransaction evs),
                snd r))"

text \<open>
  An engine for running the chains on: it commits every transaction and appends the
  requests it was given to a journal, which is its storage.
\<close>

definition journal_engine :: "('op list, 'op, 'r) engine" where
  "journal_engine names m ops journal = (Fires [Complete] [], journal @ ops)"

section \<open>Properties of the condition translator\<close>

lemma less_snoc: "xs < xs @ [a]" for xs :: "('a::linorder) list"
  by (induction xs) simp_all

lemma prefix_below_end: "(Str p :: ('n::linorder) key) < Str (prefix_end p)"
  using less_snoc [of p "0xFFFF"]
  by (simp add: less_key_def prefix_end_def less_le_not_le)

lemma bound_well_formed:
  "bound lo hi lopn hopn
     = (if well_formed \<lparr>lower = Some lo, upper = Some hi, lowerOpen = lopn, upperOpen = hopn\<rparr>
        then Inr \<lparr>lower = Some lo, upper = Some hi, lowerOpen = lopn, upperOpen = hopn\<rparr>
        else Inl DataError)"
  by (auto simp add: bound_def well_formed_def)

lemma well_formed_simple:
  "well_formed \<lparr>lower = Some v, upper = Some v, lowerOpen = False, upperOpen = False\<rparr>"
  "well_formed \<lparr>lower = Some v, upper = None, lowerOpen = x, upperOpen = y\<rparr>"
  "well_formed \<lparr>lower = None, upper = Some v, lowerOpen = x, upperOpen = y\<rparr>"
  by (simp_all add: well_formed_def)

text \<open>
  Claim C2 says that a condition with gte and lte set and no field of higher precedence
  always gives the inclusive bound from gte to lte. With gte 7 and lte 2 the translator
  calls \<^verbatim>\<open>IDBKeyRange.bound(7, 2)\<close>, which throws a \<^verbatim>\<open>DataError\<close>: no descriptor
  is returned.
\<close>

theorem parseWhereCondition_inverted_counterexample:
  "parseWhereCondition
     (Cond \<lparr>eq = None, gt = None, gte = Some (Num (7::int)), lt = None, lte = Some (Num 2),
            between = None, startsWith = None\<rparr>)
     = Inl DataError \<and>
   parseWhereCondition
     (Cond \<lparr>eq = None, gt = None, gte = Some (Num (7::int)), lt = None, lte = Some (Num 2),
            between = None, startsWith = None\<rparr>)
     \<noteq> Inr (Some \<lparr>lower = Some (Num 7), upper = Some (Num 2),
                    lowerOpen = False, upperOpen = False\<rparr>)"
  by (simp add: bound_def less_key_def)

text \<open>
  Claim C2, as amended. For every condition object, \<^verbatim>\<open>parseWhereCondition\<close> takes
  the first form of the precedence list equals, betweenInclusive, startsWithPrefix,
  (gte and lte), (gt and lt, both exclusive), (gte and lt), (gt and lte), gt, gte, lt,
  lte that is present in the condition. It returns no descriptor when none is present,
  the descriptor of that form when the descriptor is well formed, and throws the
  engine's \<^verbatim>\<open>DataError\<close> when it is not (lower bound above the upper one, or equal
  to it with an open end). In particular a condition with gte and lte set, none of
  equals, between and startsWith, and gte not above lte gives the inclusive bound from
  gte to lte; with gte above lte it throws.
\<close>

theorem parseWhereCondition_precedence:
  fixes c :: "('n::linorder) WhereCondition"
  shows
  "parseWhereCondition (Cond c)
     = (case translate c of
          None \<Rightarrow> Inr None
        | Some r \<Rightarrow> if well_formed r then Inr (Some r) else Inl DataError) \<and>
   (eq c = None \<and> between c = None \<and> startsWith c = None \<and> gte c = Some a \<and> lte c = Some b
      \<and> a \<le> b
      \<longrightarrow> parseWhereCondition (Cond c)
            = Inr (Some \<lparr>lower = Some a, upper = Some b, lowerOpen = False, upperOpen = False\<rparr>)) \<and>
   (eq c = None \<and> between c = None \<and> startsWith c = None \<and> gte c = Some a \<and> lte c = Some b
      \<and> b < a
      \<longrightarrow> parseWhereCondition (Cond c) = Inl DataError) \<and>
   (eq c = None \<and> between c = None \<and> startsWith c = None \<and> gt c = None \<and> gte c = None
      \<and> lt c = None \<and> lte c = None \<longrightarrow> parseWhereCondition (Cond c) = Inr None)"
proof -
  have sw: "well_formed \<lparr>lower = Some (Str p :: 'n key), upper = Some (Str (p @ [0xFFFF])),
                         lowerOpen = False, upperOpen = False\<rparr>" for p
    using prefix_below_end [of p] by (simp add: well_formed_def prefix_end_def)
  have first: "parseWhereCondition (Cond c)
     = (case translate c of
          None \<Rightarrow> Inr None
        | Some r \<Rightarrow> if well_formed r then Inr (Some r) else Inl DataError)"
    by (cases "eq c"; cases "between c"; cases "startsWith c"; cases "gte c"; cases "lte c";
        cases "gt c"; cases "lt c")
      (simp_all add: translate_def precedence_def bound_well_formed sw prefix_end_def
         only_def lowerBound_def upperBound_def well_formed_simple)
  have incl: "eq c = None \<and> between c = None \<and> startsWith c = None \<and> gte c = Some a \<and> lte c = Some b
      \<and> a \<le> b
      \<longrightarrow> parseWhereCondition (Cond c)
            = Inr (Some \<lparr>lower = Some a, upper = Some b, lowerOpen = False, upperOpen = False\<rparr>)"
    by (auto simp add: bound_def)
  have inv: "eq c = None \<and> between c = None \<and> startsWith c = None \<and> gte c = Some a \<and> lte c = Some b
      \<and> b < a
      \<longrightarrow> parseWhereCondition (Cond c) = Inl DataError"
    by (simp add: bound_def)
  have none: "eq c = None \<and> between c = None \<and> startsWith c = None \<and> gt c = None \<and> gte c = None
      \<and> lt c = None \<and> lte c = None \<longrightarrow> parseWhereCondition (Cond c) = Inr None"
    by simp
  from first incl inv none show ?thesis by blast
qed

theorem parseWhereCondition_precedence_witness:
  "parseWhereCondition (Cond \<lparr>eq = None, gt = Some (Num (1::int)), gte = Some (Num 2),
       lt = Some (Num 9), lte = Some (Num 7), between = None, startsWith = None\<rparr>)
     = Inr (Some \<lparr>lower = Some (Num 2), upper = Some (Num 7),
                  lowerOpen = False, upperOpen = False\<rparr>)"
  using parseWhereCondition_precedence
    [where c = "\<lparr>eq = None, gt = Some (Num (1::int)), gte = Some (Num 2),
       lt = Some (Num 9), lte = Some (Num 7), between = None, startsWith = None\<rparr>"
       and a = "Num 2" and b = "Num 7", THEN conjunct2, THEN conjunct1]
  by simp

text \<open>
  Claim C8. For every string \<open>p\<close>, a condition whose winning field is startsWith with
  the prefix \<open>p\<close> is translated to the inclusive bound from \<open>p\<close> to \<open>p\<close> followed by
  the code unit U+FFFF, and the \<^verbatim>\<open>startsWith\<close> selectors of the index builder and of
  the query builder give the plan with the same bound; none of them throws, since
  \<open>p\<close> is below \<open>p\<close> followed by U+FFFF. For the prefix "ab" the bound is from "ab"
  to "ab" followed by U+FFFF.
\<close>

theorem startsWith_bound:
  fixes c :: "('n::linorder) WhereCondition"
    and ib :: "'f IndexQueryBuilderImpl"
    and qb :: "'f QueryBuilderImpl"
  shows
  "(eq c = None \<and> between c = None \<and> startsWith c = Some p
      \<longrightarrow> parseWhereCondition (Cond c)
            = Inr (Some \<lparr>lower = Some (Str p), upper = Some (Str (p @ [0xFFFF])),
                         lowerOpen = False, upperOpen = False\<rparr>)) \<and>
   (\<exists>b. ib_startsWith ib p = Inr b \<and> b = createFinal ib (keyRange (state b)) \<and>
      keyRange (state b)
        = Some \<lparr>lower = Some (Str p :: 'n key), upper = Some (Str (p @ [0xFFFF])),
                lowerOpen = False, upperOpen = False\<rparr>) \<and>
   (\<exists>b. qb_startsWith qb p = Inr b \<and> b = createFinal (keyBuilder qb) (keyRange (state b)) \<and>
      keyRange (state b)
        = Some \<lparr>lower = Some (Str p :: 'n key), upper = Some (Str (p @ [0xFFFF])),
                lowerOpen = False, upperOpen = False\<rparr>)"
proof -
  have b: "bound (Str p :: 'n key) (Str (prefix_end p)) False False
      = Inr \<lparr>lower = Some (Str p), upper = Some (Str (p @ [0xFFFF])),
             lowerOpen = False, upperOpen = False\<rparr>"
    using prefix_below_end [of p, where 'n = 'n]
    by (auto simp add: bound_def prefix_end_def)
  show ?thesis
    by (simp add: b ib_startsWith_def qb_startsWith_def createFinal_def)
qed

theorem startsWith_bound_witness:
  "parseWhereCondition (Cond \<lparr>eq = None, gt = None, gte = None, lt = None, lte = None,
       between = None, startsWith = Some (js ''ab'')\<rparr>)
     = Inr (Some \<lparr>lower = Some (Str [0x61, 0x62] :: int key),
                  upper = Some (Str [0x61, 0x62, 0xFFFF]),
                  lowerOpen = False, upperOpen = False\<rparr>)"
  using startsWith_bound
    [where c = "\<lparr>eq = None, gt = None, gte = None, lt = None, lte = None,
       between = None, startsWith = Some (js ''ab'')\<rparr> :: int WhereCondition"
       and p = "js ''ab''", THEN conjunct1]
  by (simp add: js_def)

section \<open>Properties of the completion bridge\<close>

lemma settled_stays: "p \<noteq> Pending \<Longrightarrow> foldl on_tx_event p evs = p"
proof (induction evs arbitrary: p)
  case Nil
  show ?case by simp
next
  case (Cons ev evs)
  from Cons.prems have "on_tx_event p ev = p"
    by (cases ev; cases p) (simp_all add: resolve_def reject_def)
  with Cons show ?case by simp
qed

lemma first_event_settles: "on_tx_event Pending ev \<noteq> Pending"
  by (cases ev) (simp_all add: resolve_def reject_def)

text \<open>
  Claim C9. The promise of \<^verbatim>\<open>promisifyTransaction\<close> settles once: after it has
  settled, no later event of the transaction changes it, so it is resolved at most once
  and rejected at most once. Whatever event the engine fires first settles it, so no
  completion, error or abort leaves it pending: completion resolves it, an error event
  rejects it with the transaction's error, an abort with an error rejects it with that
  error, and an abort with no error rejects it with the error made up for the purpose,
  whose message is "Transaction aborted".
\<close>

theorem promisifyTransaction_settles_once:
  "(promisifyTransaction evs \<noteq> Pending
      \<longrightarrow> promisifyTransaction (evs @ later) = promisifyTransaction evs) \<and>
   (evs \<noteq> [] \<longrightarrow> promisifyTransaction evs \<noteq> Pending) \<and>
   promisifyTransaction (Complete # later) = Fulfilled () \<and>
   promisifyTransaction (ErrorEvent err # later) = Rejected (error_value err) \<and>
   promisifyTransaction (AbortEvent (Some e) # later) = Rejected (DOMException e) \<and>
   promisifyTransaction (AbortEvent None # later) = Rejected (Error ''Transaction aborted'')"
proof -
  have once: "promisifyTransaction evs \<noteq> Pending
      \<longrightarrow> promisifyTransaction (evs @ later) = promisifyTransaction evs"
    by (simp add: promisifyTransaction_def settled_stays)
  have some: "evs \<noteq> [] \<longrightarrow> promisifyTransaction evs \<noteq> Pending"
  proof (cases evs)
    case Nil
    then show ?thesis by simp
  next
    case (Cons ev rest)
    then show ?thesis
      using settled_stays [OF first_event_settles, of ev rest] first_event_settles [of ev]
      by (simp add: promisifyTransaction_def)
  qed
  have c: "promisifyTransaction (Complete # later) = Fulfilled ()"
    by (simp add: promisifyTransaction_def resolve_def settled_stays)
  have er: "promisifyTransaction (ErrorEvent err # later) = Rejected (error_value err)"
    by (simp add: promisifyTransaction_def reject_def settled_stays)
  have a1: "promisifyTransaction (AbortEvent (Some e) # later) = Rejected (DOMException e)"
    by (simp add: promisifyTransaction_def reject_def settled_stays)
  have a2: "promisifyTransaction (AbortEvent None # later)
      = Rejected (Error ''Transaction aborted'')"
    by (simp add: promisifyTransaction_def reject_def settled_stays)
  from once some c er a1 a2 show ?thesis by blast
qed

theorem promisifyTransaction_settles_once_witness:
  "promisifyTransaction ([AbortEvent None] @ [Complete, ErrorEvent (Some ConstraintError)])
     = Rejected (Error ''Transaction aborted'') \<and>
   promisifyTransaction [AbortEvent None] \<noteq> Pending"
  using promisifyTransaction_settles_once
    [where evs = "[AbortEvent None]" and later = "[Complete, ErrorEvent (Some ConstraintError)]"]
  by simp

section \<open>Properties of the transaction chains\<close>

text \<open>
  Claim C4. A chain whose queue is empty, which is a chain as it was created, is
  executed without any call on the engine: the promise of \<^verbatim>\<open>execute\<close> is fulfilled,
  with the empty array for a read chain and with nothing for a write chain, and the
  connection is as before, with the same storage and no transaction opened.
\<close>

theorem empty_chain_opens_no_transaction:
  fixes weng :: "('s, ('n, 'v) WriteOperation, 'r) engine"
    and reng :: "('s, 'n ReadOperation, 'r) engine"
    and c :: "'s connection"
  shows
  "execute_write weng (createWriteChain names) c = (Fulfilled (), c) \<and>
   execute_read reng (createReadChain names) c = (Fulfilled [], c) \<and>
   (w_operations wc = [] \<longrightarrow> execute_write weng wc c = (Fulfilled (), c)) \<and>
   (r_operations rc = [] \<longrightarrow> execute_read reng rc c = (Fulfilled [], c))"
  by (simp add: execute_write_def execute_read_def createWriteChain_def createReadChain_def)

theorem empty_chain_opens_no_transaction_witness:
  "execute_write (journal_engine :: ((int, string) WriteOperation list, (int, string) WriteOperation, unit) engine)
       \<lparr>w_storeNames = [''users''], w_operations = []\<rparr> \<lparr>storage = [], opened = []\<rparr>
     = (Fulfilled (), \<lparr>storage = [], opened = []\<rparr>)"
  using empty_chain_opens_no_transaction
    [where wc = "\<lparr>w_storeNames = [''users''], w_operations = []\<rparr>"
       and weng = "journal_engine :: ((int, string) WriteOperation list, (int, string) WriteOperation, unit) engine"
       and c = "\<lparr>storage = [], opened = []\<rparr>"]
  by simp

lemma find_app:
  "find P (xs @ ys) = (case find P xs of Some x \<Rightarrow> Some x | None \<Rightarrow> find P ys)"
  by (induction xs) simp_all

lemma find_seen:
  "find P (foldl (\<lambda>seen s. if s \<in> set seen then seen else seen @ [s]) acc xs)
     = (case find P acc of Some y \<Rightarrow> Some y | None \<Rightarrow> find P xs)"
proof (induction xs arbitrary: acc)
  case Nil
  show ?case by (simp split: option.splits)
next
  case (Cons x xs)
  show ?case
  proof (cases "x \<in> set acc")
    case True
    then have "find P acc = None \<Longrightarrow> \<not> P x"
      by (auto simp add: find_None_iff)
    with True show ?thesis
      by (simp add: Cons.IH split: option.splits)
  next
    case False
    then show ?thesis
      by (simp add: Cons.IH find_app split: option.splits)
  qed
qed

lemma find_usedStores: "find P (usedStores xs) = find P xs"
  by (simp add: usedStores_def find_seen)






text \<open>
  Claim C5 says that a chain is consumed by its first \<^verbatim>\<open>execute\<close>, a second call on
  the same chain failing by a one-shot flag. The chains of \<^verbatim>\<open>writeChain.ts\<close> and
  \<^verbatim>\<open>readChain.ts\<close> hold no such flag. Here a write chain with one queued
  \<^verbatim>\<open>put\<close> is executed twice on an engine that commits every transaction: the second
  call is fulfilled as the first, a second transaction is opened, and the engine has
  been given the \<^verbatim>\<open>put\<close> twice.
\<close>

theorem chain_reuse_counterexample:
  "fst (execute_write
          (journal_engine :: ((int, string) WriteOperation list, (int, string) WriteOperation, unit) engine)
          (put ''users'' ''u1'' None (createWriteChain [''users'']))
          (snd (execute_write
                  (journal_engine :: ((int, string) WriteOperation list, (int, string) WriteOperation, unit) engine)
                  (put ''users'' ''u1'' None (createWriteChain [''users'']))
                  \<lparr>storage = [], opened = []\<rparr>)))
     = Fulfilled () \<and>
   snd (execute_write
          (journal_engine :: ((int, string) WriteOperation list, (int, string) WriteOperation, unit) engine)
          (put ''users'' ''u1'' None (createWriteChain [''users'']))
          (snd (execute_write
                  (journal_engine :: ((int, string) WriteOperation list, (int, string) WriteOperation, unit) engine)
                  (put ''users'' ''u1'' None (createWriteChain [''users'']))
                  \<lparr>storage = [], opened = []\<rparr>)))
     = \<lparr>storage = [Put ''users'' ''u1'' None, Put ''users'' ''u1'' None],
        opened = [([''users''], ReadWrite), ([''users''], ReadWrite)]\<rparr>"
  by (simp add: execute_write_def put_def createWriteChain_def usedStores_def transaction_def
        journal_engine_def promisifyTransaction_def resolve_def)

lemma execute_write_in_scope:
  assumes "w_operations wc \<noteq> []"
    and "\<forall>op\<in>set (w_operations wc). w_storeName op \<in> set (w_storeNames wc)"
  shows "execute_write weng wc c
     = ((case fst (weng (w_storeNames wc) ReadWrite (w_operations wc) (storage c)) of
           Throws e \<Rightarrow> Rejected (DOMException e)
         | Fires evs rs \<Rightarrow> promisifyTransaction evs),
        \<lparr>storage = snd (weng (w_storeNames wc) ReadWrite (w_operations wc) (storage c)),
         opened = opened c @ [(w_storeNames wc, ReadWrite)]\<rparr>)"
proof -
  from assms(2) have "find (\<lambda>s. s \<notin> set (w_storeNames wc)) (map w_storeName (w_operations wc)) = None"
    by (simp add: find_None_iff)
  with assms(1) show ?thesis
    by (simp add: execute_write_def find_usedStores transaction_def Let_def)
qed

lemma execute_read_in_scope:
  assumes "r_operations rc \<noteq> []"
    and "\<forall>op\<in>set (r_operations rc). r_storeName op \<in> set (r_storeNames rc)"
  shows "execute_read reng rc c
     = ((case fst (reng (r_storeNames rc) ReadOnly (r_operations rc) (storage c)) of
           Throws e \<Rightarrow> Rejected (DOMException e)
         | Fires evs rs \<Rightarrow> then_promise (\<lambda>u. rs) (promisifyTransaction evs)),
        \<lparr>storage = snd (reng (r_storeNames rc) ReadOnly (r_operations rc) (storage c)),
         opened = opened c @ [(r_storeNames rc, ReadOnly)]\<rparr>)"
proof -
  from assms(2) have "find (\<lambda>s. s \<notin> set (r_storeNames rc)) (map r_storeName (r_operations rc)) = None"
    by (simp add: find_None_iff)
  with assms(1) show ?thesis
    by (simp add: execute_read_def find_usedStores transaction_def Let_def)
qed

text \<open>
  Claim C5, as amended. \<^verbatim>\<open>execute\<close> neither reads nor sets a consumed flag and leaves
  the queue as it is, so a chain can be executed again. Every call on a chain whose
  queue is not empty and names only stores of the chain opens one transaction over the
  chain's store names, issues the whole queue in its order and settles as that
  transaction does; two calls in a row open two transactions and hand the queue to the
  engine twice, the second time on the storage the first one left.
\<close>

theorem chain_reexecution:
  fixes weng :: "('s, ('n, 'v) WriteOperation, 'r) engine"
    and reng :: "('s, 'n ReadOperation, 'r) engine"
    and c :: "'s connection"
  shows
  "(w_operations wc \<noteq> [] \<and>
    (\<forall>op\<in>set (w_operations wc). w_storeName op \<in> set (w_storeNames wc)) \<longrightarrow>
      execute_write weng wc c
        = ((case fst (weng (w_storeNames wc) ReadWrite (w_operations wc) (storage c)) of
              Throws e \<Rightarrow> Rejected (DOMException e)
            | Fires evs rs \<Rightarrow> promisifyTransaction evs),
           \<lparr>storage = snd (weng (w_storeNames wc) ReadWrite (w_operations wc) (storage c)),
            opened = opened c @ [(w_storeNames wc, ReadWrite)]\<rparr>) \<and>
      opened (snd (execute_write weng wc (snd (execute_write weng wc c))))
        = opened c @ [(w_storeNames wc, ReadWrite), (w_storeNames wc, ReadWrite)] \<and>
      storage (snd (execute_write weng wc (snd (execute_write weng wc c))))
        = snd (weng (w_storeNames wc) ReadWrite (w_operations wc)
                 (snd (weng (w_storeNames wc) ReadWrite (w_operations wc) (storage c))))) \<and>
   (r_operations rc \<noteq> [] \<and>
    (\<forall>op\<in>set (r_operations rc). r_storeName op \<in> set (r_storeNames rc)) \<longrightarrow>
      execute_read reng rc c
        = ((case fst (reng (r_storeNames rc) ReadOnly (r_operations rc) (storage c)) of
              Throws e \<Rightarrow> Rejected (DOMException e)
            | Fires evs rs \<Rightarrow> then_promise (\<lambda>u. rs) (promisifyTransaction evs)),
           \<lparr>storage = snd (reng (r_storeNames rc) ReadOnly (r_operations rc) (storage c)),
            opened = opened c @ [(r_storeNames rc, ReadOnly)]\<rparr>) \<and>
      opened (snd (execute_read reng rc (snd (execute_read reng rc c))))
        = opened c @ [(r_storeNames rc, ReadOnly), (r_storeNames rc, ReadOnly)])"
  by (simp add: execute_write_in_scope execute_read_in_scope)

theorem chain_reexecution_witness:
  "opened (snd (execute_write
          (journal_engine :: ((int, string) WriteOperation list, (int, string) WriteOperation, unit) engine)
          (put ''users'' ''u1'' None (createWriteChain [''users'']))
          (snd (execute_write
                  (journal_engine :: ((int, string) WriteOperation list, (int, string) WriteOperation, unit) engine)
                  (put ''users'' ''u1'' None (createWriteChain [''users'']))
                  \<lparr>storage = [], opened = []\<rparr>))))
     = [([''users''], ReadWrite), ([''users''], ReadWrite)]"
proof -
  have h: "w_operations (put ''users'' ''u1'' None (createWriteChain [''users''])
               :: (int, string) write_chain) \<noteq> [] \<and>
      (\<forall>op\<in>set (w_operations (put ''users'' ''u1'' None (createWriteChain [''users''])
               :: (int, string) write_chain)).
         w_storeName op
           \<in> set (w_storeNames (put ''users'' ''u1'' None (createWriteChain [''users''])
               :: (int, string) write_chain)))"
    by (simp add: put_def createWriteChain_def)
  from chain_reexecution
    [where wc = "put ''users'' ''u1'' None (createWriteChain [''users''])"
       and weng = "journal_engine :: ((int, string) WriteOperation list, (int, string) WriteOperation, unit) engine"
       and c = "\<lparr>storage = [], opened = []\<rparr>",
     THEN conjunct1, THEN mp, OF h, THEN conjunct2, THEN conjunct1]
  show ?thesis by (simp add: put_def createWriteChain_def)
qed

section \<open>Properties of the query executor\<close>

subsection \<open>The cursor walk\<close>

lemma walk_settled:
  "settled st = Pending \<Longrightarrow> skipped st \<le> off \<Longrightarrow>
   settled (cursor_walk lim off ov st (map At xs @ [AtEnd]))
     = Fulfilled (results st @ map ov
         (case lim of None \<Rightarrow> drop (off - skipped st) xs
          | Some l \<Rightarrow> take (l - collected st) (drop (off - skipped st) xs)))"
proof (induction xs arbitrary: st)
  case Nil
  then show ?case by (simp add: resolve_def split: option.splits)
next
  case (Cons x xs)
  show ?case
  proof (cases "skipped st < off")
    case True
    then have "drop (off - skipped st) (x # xs) = drop (off - (skipped st + 1)) xs"
      by (simp add: drop_Cons')
    with True Cons.prems
      Cons.IH [of "st\<lparr>skipped := skipped st + 1, continues := continues st + 1\<rparr>"]
    show ?thesis by (simp split: option.splits)
  next
    case False
    with Cons.prems have eq: "off - skipped st = 0" by simp
    show ?thesis
    proof (cases lim)
      case None
      with False eq Cons.prems
        Cons.IH [of "st\<lparr>results := results st @ [ov x], collected := collected st + 1,
                       continues := continues st + 1\<rparr>"]
      show ?thesis by (simp add: Let_def)
    next
      case (Some l)
      show ?thesis
      proof (cases "collected st < l")
        case c: True
        show ?thesis
        proof (cases "collected st + 1 \<ge> l")
          case True
          with c have "l - collected st = 1" by simp
          with True c Some False eq Cons.prems show ?thesis
            by (simp add: Let_def resolve_def)
        next
          case f: False
          then have "take (l - collected st) (x # xs) = x # take (l - (collected st + 1)) xs"
            by (simp add: take_Cons')
          with f c Some False eq Cons.prems
            Cons.IH [of "st\<lparr>results := results st @ [ov x], collected := collected st + 1,
                       continues := continues st + 1\<rparr>"]
          show ?thesis by (simp add: Let_def)
        qed
      next
        case c: False
        then have "l - collected st = 0" by simp
        with c Some False eq Cons.prems show ?thesis
          by (simp add: Let_def resolve_def)
      qed
    qed
  qed
qed


lemma walk_continues:
  "skipped st \<le> off \<Longrightarrow>
   continues (cursor_walk lim off ov st (map At xs @ [AtEnd]))
     = continues st +
       (case lim of None \<Rightarrow> length xs
        | Some l \<Rightarrow> min (length xs) ((off - skipped st) + (l - collected st - 1)))"
proof (induction xs arbitrary: st)
  case Nil
  then show ?case by (simp split: option.splits)
next
  case (Cons x xs)
  show ?case
  proof (cases "skipped st < off")
    case True
    with Cons.prems
      Cons.IH [of "st\<lparr>skipped := skipped st + 1, continues := continues st + 1\<rparr>"]
    show ?thesis by (simp split: option.splits) arith
  next
    case False
    with Cons.prems have eq: "off - skipped st = 0" by simp
    show ?thesis
    proof (cases lim)
      case None
      with False eq Cons.prems
        Cons.IH [of "st\<lparr>results := results st @ [ov x], collected := collected st + 1,
                       continues := continues st + 1\<rparr>"]
      show ?thesis by (simp add: Let_def)
    next
      case (Some l)
      show ?thesis
      proof (cases "collected st < l")
        case c: True
        show ?thesis
        proof (cases "collected st + 1 \<ge> l")
          case True
          with c have "l - collected st - 1 = 0" by simp
          with True c Some False eq Cons.prems show ?thesis
            by (simp add: Let_def)
        next
          case f: False
          with c Some False eq Cons.prems
            Cons.IH [of "st\<lparr>results := results st @ [ov x], collected := collected st + 1,
                       continues := continues st + 1\<rparr>"]
          show ?thesis by (simp add: Let_def)
        qed
      next
        case c: False
        then have "l - collected st - 1 = 0" by simp
        with c Some False eq Cons.prems show ?thesis
          by (simp add: Let_def)
      qed
    qed
  qed
qed



lemma length_native_cursor: "length (native_cursor src r d) = length (matching src r)"
  by (cases d) (simp_all add: native_cursor_def)


lemma executeQuery_cursor:
  assumes "db (storeName b) = Some store"
    and "source_of store (indexName (state b)) = Inr source"
    and "offsetCount (state b) > 0 \<or> limitCount (state b) \<noteq> None"
  shows "executeQuery db b Completes
     = (Fulfilled (map (withDefaults (defaults b))
          (case limitCount (state b) of
             None \<Rightarrow> drop (offsetCount (state b))
               (native_cursor source (keyRange (state b))
                  (if order (state b) = Desc then Prev else Next))
           | Some l \<Rightarrow> take l (drop (offsetCount (state b))
               (native_cursor source (keyRange (state b))
                  (if order (state b) = Desc then Prev else Next))))),
        [TransactionCall [storeName b] ReadOnly,
         OpenCursorCall (chosen (indexName (state b))) (keyRange (state b))
           (if order (state b) = Desc then Prev else Next)]
        @ replicate
            (case limitCount (state b) of
               None \<Rightarrow> length (matching source (keyRange (state b)))
             | Some l \<Rightarrow> min (length (matching source (keyRange (state b))))
                               (offsetCount (state b) + (l - 1)))
            ContinueCall)"
proof -
  let ?visit = "native_cursor source (keyRange (state b))
                  (if order (state b) = Desc then Prev else Next)"
  let ?fin = "cursor_walk (limitCount (state b)) (offsetCount (state b))
                (withDefaults (defaults b)) cursor_start (map At ?visit @ [AtEnd])"
  have s: "settled ?fin = Fulfilled (map (withDefaults (defaults b))
          (case limitCount (state b) of
             None \<Rightarrow> drop (offsetCount (state b)) ?visit
           | Some l \<Rightarrow> take l (drop (offsetCount (state b)) ?visit)))"
    using walk_settled [of cursor_start "offsetCount (state b)" "limitCount (state b)"
        "withDefaults (defaults b)" ?visit]
    by (simp add: cursor_start_def split: option.splits)
  have c: "continues ?fin
      = (case limitCount (state b) of
               None \<Rightarrow> length (matching source (keyRange (state b)))
             | Some l \<Rightarrow> min (length (matching source (keyRange (state b))))
                               (offsetCount (state b) + (l - 1)))"
    using walk_continues [of cursor_start "offsetCount (state b)" "limitCount (state b)"
        "withDefaults (defaults b)" ?visit]
    by (simp add: cursor_start_def length_native_cursor split: option.splits)
  from assms have "executeQuery db b Completes
      = (settled ?fin,
         [TransactionCall [storeName b] ReadOnly,
          OpenCursorCall (chosen (indexName (state b))) (keyRange (state b))
            (if order (state b) = Desc then Prev else Next)]
         @ replicate (continues ?fin) ContinueCall)"
    by (auto simp add: executeQuery_def Let_def)
  with s c show ?thesis by simp
qed

lemma withDefaults_fun:
  "withDefaults d = (if d \<noteq> Map.empty then (\<lambda>v. d ++ v) else (\<lambda>v. v))"
  by (rule ext) (simp add: withDefaults_def)

lemma executeQuery_bulk:
  assumes "db (storeName b) = Some store"
    and "source_of store (indexName (state b)) = Inr source"
    and "offsetCount (state b) = 0" and "limitCount (state b) = None"
  shows "executeQuery db b Completes
     = (Fulfilled
          (if order (state b) = Desc
           then rev (map (withDefaults (defaults b)) (native_getAll source (keyRange (state b))))
           else map (withDefaults (defaults b)) (native_getAll source (keyRange (state b)))),
        [TransactionCall [storeName b] ReadOnly,
         GetAllCall (chosen (indexName (state b))) (keyRange (state b))])"
proof -
  have "(if defaults b \<noteq> Map.empty
         then map (\<lambda>v. defaults b ++ v) (native_getAll source (keyRange (state b)))
         else native_getAll source (keyRange (state b)))
      = map (withDefaults (defaults b)) (native_getAll source (keyRange (state b)))"
    by (simp add: withDefaults_fun)
  with assms show ?thesis
    by (simp add: executeQuery_def Let_def)
qed

text \<open>
  Claim C3. A query with limit \<open>l\<close> and offset \<open>off\<close> over \<open>n\<close> matching records
  takes the cursor path. Of the records in the cursor's order it skips the first
  \<open>off\<close> and gathers the next \<open>l\<close>, or those that are left when the cursor is
  exhausted before; it calls \<^verbatim>\<open>continue\<close> after every record but the one that meets
  the limit, which makes \<open>min n (off + (l - 1))\<close> calls. So the result has \<open>l\<close>
  records when \<open>off + l \<le> n\<close>, none when \<open>n \<le> off\<close>, and \<open>n - off\<close> when
  \<open>off < n < off + l\<close>.
\<close>

theorem cursor_path_limit_offset:
  assumes "db (storeName b) = Some store"
    and "source_of store (indexName (state b)) = Inr source"
    and "limitCount (state b) = Some l"
    and "offsetCount (state b) = off"
    and "length (matching source (keyRange (state b))) = n"
  shows "\<exists>rs. executeQuery db b Completes
       = (Fulfilled rs,
          [TransactionCall [storeName b] ReadOnly,
           OpenCursorCall (chosen (indexName (state b))) (keyRange (state b))
             (if order (state b) = Desc then Prev else Next)]
          @ replicate (min n (off + (l - 1))) ContinueCall) \<and>
     rs = map (withDefaults (defaults b))
            (take l (drop off (native_cursor source (keyRange (state b))
               (if order (state b) = Desc then Prev else Next)))) \<and>
     (off + l \<le> n \<longrightarrow> length rs = l) \<and>
     (n \<le> off \<longrightarrow> length rs = 0) \<and>
     (off < n \<and> n < off + l \<longrightarrow> length rs = n - off)"
proof -
  let ?rs = "map (withDefaults (defaults b))
            (take l (drop off (native_cursor source (keyRange (state b))
               (if order (state b) = Desc then Prev else Next))))"
  from assms have e: "executeQuery db b Completes
       = (Fulfilled ?rs,
          [TransactionCall [storeName b] ReadOnly,
           OpenCursorCall (chosen (indexName (state b))) (keyRange (state b))
             (if order (state b) = Desc then Prev else Next)]
          @ replicate (min n (off + (l - 1))) ContinueCall)"
    by (simp add: executeQuery_cursor)
  from assms(5) have len: "length ?rs = min l (n - off)"
    by (simp add: length_native_cursor min.commute)
  from len have "(off + l \<le> n \<longrightarrow> length ?rs = l) \<and>
     (n \<le> off \<longrightarrow> length ?rs = 0) \<and>
     (off < n \<and> n < off + l \<longrightarrow> length ?rs = n - off)"
    by auto
  with e show ?thesis by blast
qed


theorem cursor_path_limit_offset_witness:
  "fst (executeQuery
     [''products'' \<mapsto>
        \<lparr>records = [],
         indexes = [''price'' \<mapsto>
           [(Num (30::int), [''price'' \<mapsto> (30::int)]), (Num 50, [''price'' \<mapsto> 50]),
            (Num 80, [''price'' \<mapsto> 80]), (Num 100, [''price'' \<mapsto> 100]),
            (Num 200, [''price'' \<mapsto> 200])]]\<rparr>]
     (offset 1 (limit 2 (orderBy Asc
        (createFinal (index \<lparr>qb_storeName = ''products'', qb_defaults = Map.empty\<rparr> ''price'')
           None))))
     Completes)
   = Fulfilled [[''price'' \<mapsto> 50], [''price'' \<mapsto> 80]]"
  (is "fst (executeQuery ?db ?b Completes) = _")
proof -
  let ?ix = "[(Num (30::int), [''price'' \<mapsto> (30::int)]), (Num 50, [''price'' \<mapsto> 50]),
            (Num 80, [''price'' \<mapsto> 80]), (Num 100, [''price'' \<mapsto> 100]),
            (Num 200, [''price'' \<mapsto> 200])]"
  let ?store = "\<lparr>records = [], indexes = [''price'' \<mapsto> ?ix]\<rparr>"
  have h1: "?db (storeName ?b) = Some ?store"
    by (simp add: offset_def limit_def orderBy_def createFinal_def index_def)
  have h2: "source_of ?store (indexName (state ?b)) = Inr ?ix"
    by (simp add: offset_def limit_def orderBy_def createFinal_def index_def source_of_def
          truthy_def)
  have h3: "limitCount (state ?b) = Some 2"
    by (simp add: offset_def limit_def orderBy_def createFinal_def index_def)
  have h4: "offsetCount (state ?b) = 1"
    by (simp add: offset_def limit_def orderBy_def createFinal_def index_def)
  have h5: "length (matching ?ix (keyRange (state ?b))) = 5"
    by (simp add: offset_def limit_def orderBy_def createFinal_def index_def matching_def)
  from cursor_path_limit_offset [where db = ?db and b = ?b, OF h1 h2 h3 h4 h5]
  show ?thesis
    by (auto simp add: offset_def limit_def orderBy_def createFinal_def index_def matching_def
          native_cursor_def withDefaults_def)
qed

subsection \<open>The bulk path\<close>

text \<open>
  Claim C6. For a plan with no limit and offset 0, \<^verbatim>\<open>findAll\<close> in descending order
  gives the reverse of \<^verbatim>\<open>findAll\<close> in ascending order, whatever the engine does with
  the transaction, and both make the same calls. On a store that exists the two make
  one \<^verbatim>\<open>getAll\<close> request each, which returns the matching records in ascending
  order, and the descending query reverses what it returned.
\<close>

theorem descending_findAll_is_reverse:
  assumes "limitCount (state b) = None" and "offsetCount (state b) = 0"
  shows "fst (findAll db (orderBy Desc b) run)
       = then_promise rev (fst (findAll db (orderBy Asc b) run)) \<and>
     snd (findAll db (orderBy Desc b) run) = snd (findAll db (orderBy Asc b) run) \<and>
     (db (storeName b) = Some store \<and> source_of store (indexName (state b)) = Inr source \<longrightarrow>
        findAll db (orderBy Asc b) Completes
          = (Fulfilled (map (withDefaults (defaults b))
                          (native_getAll source (keyRange (state b)))),
             [TransactionCall [storeName b] ReadOnly,
              GetAllCall (chosen (indexName (state b))) (keyRange (state b))]) \<and>
        findAll db (orderBy Desc b) Completes
          = (Fulfilled (rev (map (withDefaults (defaults b))
                               (native_getAll source (keyRange (state b))))),
             [TransactionCall [storeName b] ReadOnly,
              GetAllCall (chosen (indexName (state b))) (keyRange (state b))]))"
proof -
  have general: "fst (findAll db (orderBy Desc b) run)
       = then_promise rev (fst (findAll db (orderBy Asc b) run)) \<and>
     snd (findAll db (orderBy Desc b) run) = snd (findAll db (orderBy Asc b) run)"
    using assms
    by (simp add: findAll_def executeQuery_def orderBy_def Let_def
          split: option.splits sum.splits engine_run.splits)
  have bulk: "db (storeName b) = Some store \<and> source_of store (indexName (state b)) = Inr source \<longrightarrow>
        findAll db (orderBy Asc b) Completes
          = (Fulfilled (map (withDefaults (defaults b))
                          (native_getAll source (keyRange (state b)))),
             [TransactionCall [storeName b] ReadOnly,
              GetAllCall (chosen (indexName (state b))) (keyRange (state b))]) \<and>
        findAll db (orderBy Desc b) Completes
          = (Fulfilled (rev (map (withDefaults (defaults b))
                               (native_getAll source (keyRange (state b))))),
             [TransactionCall [storeName b] ReadOnly,
              GetAllCall (chosen (indexName (state b))) (keyRange (state b))])"
    using assms
      executeQuery_bulk [of db "orderBy Asc b" store source]
      executeQuery_bulk [of db "orderBy Desc b" store source]
    by (simp add: findAll_def orderBy_def)
  from general bulk show ?thesis by blast
qed

theorem descending_findAll_is_reverse_witness:
  "fst (findAll
     [''products'' \<mapsto>
        \<lparr>records = [(Str (js ''a''), [''price'' \<mapsto> (100::int)]),
                    (Str (js ''b''), [''price'' \<mapsto> 50]),
                    (Str (js ''c''), [''price'' \<mapsto> 30])],
         indexes = Map.empty\<rparr>]
     (orderBy Desc (createFinal
        \<lparr>ib_storeName = ''products'', ib_indexName = None, ib_useKey = False,
         ib_defaults = Map.empty\<rparr> (None :: int IDBKeyRange option)))
     Completes)
   = Fulfilled [[''price'' \<mapsto> 30], [''price'' \<mapsto> 50], [''price'' \<mapsto> 100]]"
  (is "fst (findAll ?db (orderBy Desc ?b) Completes) = _")
proof -
  have h1: "limitCount (state ?b) = None" by (simp add: createFinal_def)
  have h2: "offsetCount (state ?b) = 0" by (simp add: createFinal_def)
  have asc: "fst (findAll ?db (orderBy Asc ?b) Completes)
      = Fulfilled [[''price'' \<mapsto> 100], [''price'' \<mapsto> 50], [''price'' \<mapsto> 30]]"
    by (simp add: findAll_def executeQuery_def orderBy_def createFinal_def source_of_def
          truthy_def native_getAll_def matching_def)
  from descending_findAll_is_reverse [where db = ?db and b = ?b and run = Completes, OF h1 h2]
  have "fst (findAll ?db (orderBy Desc ?b) Completes)
       = then_promise rev (fst (findAll ?db (orderBy Asc ?b) Completes))"
    by (rule conjunct1)
  with asc show ?thesis by simp
qed

subsection \<open>Counting\<close>

lemma only_includes: "range_includes (only x) k \<longleftrightarrow> k = x"
  by (auto simp add: range_includes_def only_def)

lemma count_resolved:
  assumes "db (storeName b) = Some store"
    and "source_of store (indexName (state b)) = Inr source"
  shows "count db b Completes
       = (Fulfilled (length (matching source (keyRange (state b)))),
          [TransactionCall [storeName b] ReadOnly,
           CountCall (chosen (indexName (state b))) (keyRange (state b))])"
    and "count db b (Fails n (Some e))
       = (Rejected (DOMException e),
          [TransactionCall [storeName b] ReadOnly,
           CountCall (chosen (indexName (state b))) (keyRange (state b))])"
    and "count db b (Fails n None)
       = (Rejected Null,
          [TransactionCall [storeName b] ReadOnly,
           CountCall (chosen (indexName (state b))) (keyRange (state b))])"
    and "count db b (Aborts n)
       = (Pending,
          [TransactionCall [storeName b] ReadOnly,
           CountCall (chosen (indexName (state b))) (keyRange (state b))])"
  using assms by (simp_all add: count_def Let_def native_count_def)

text \<open>
  Claim C7. \<^verbatim>\<open>count\<close> does not depend on the order, the limit or the offset of the
  plan. On a store that exists it makes one \<^verbatim>\<open>count\<close> request with the plan's bound,
  on the index of the plan when its name is not empty and on the store otherwise. It is
  resolved with the number of matching entries when the transaction completes; after
  \<^verbatim>\<open>equals(x)\<close>, with any order, limit and offset, that is the number of entries of
  the index (or of the store) whose key is \<open>x\<close>. At an error event it is rejected
  with what \<^verbatim>\<open>tx.error\<close> reads then: the engine's error when it is set, and
  \<^verbatim>\<open>null\<close> when it is not. The claim has every failure of the engine reject the
  promise; \<^verbatim>\<open>count\<close> installs no handler for the abort event, unlike
  \<^verbatim>\<open>promisifyTransaction\<close>, so a transaction that is aborted with no error event
  leaves the promise pending for ever.
\<close>

theorem count_ignores_order_limit_offset:
  fixes db :: "('n::linorder, 'f) database"
  shows
  "count db (b\<lparr>state := (state b)\<lparr>order := ord, limitCount := lim, offsetCount := off\<rparr>\<rparr>) run
     = count db b run \<and>
   (db (storeName b) = Some store \<and> source_of store (indexName (state b)) = Inr source \<longrightarrow>
      count db b Completes
        = (Fulfilled (length (matching source (keyRange (state b)))),
           [TransactionCall [storeName b] ReadOnly,
            CountCall (chosen (indexName (state b))) (keyRange (state b))]) \<and>
      count db b (Fails n (Some e))
        = (Rejected (DOMException e),
           [TransactionCall [storeName b] ReadOnly,
            CountCall (chosen (indexName (state b))) (keyRange (state b))]) \<and>
      count db b (Fails n None)
        = (Rejected Null,
           [TransactionCall [storeName b] ReadOnly,
            CountCall (chosen (indexName (state b))) (keyRange (state b))]) \<and>
      count db b (Aborts n)
        = (Pending,
           [TransactionCall [storeName b] ReadOnly,
            CountCall (chosen (indexName (state b))) (keyRange (state b))])) \<and>
   (db (ib_storeName ib) = Some st \<and> ib_indexName ib = Some ix \<and> ix \<noteq> [] \<and>
    indexes st ix = Some entries \<longrightarrow>
      count db (offset off (limit l (orderBy ord (ib_equals ib x)))) Completes
        = (Fulfilled (length (filter (\<lambda>(k, v). k = x) entries)),
           [TransactionCall [ib_storeName ib] ReadOnly, CountCall (Some ix) (Some (only x))])) \<and>
   (db (ib_storeName ib) = Some st \<and> ib_indexName ib = None \<longrightarrow>
      count db (offset off (limit l (orderBy ord (ib_equals ib x)))) Completes
        = (Fulfilled (length (filter (\<lambda>(k, v). k = x) (records st))),
           [TransactionCall [ib_storeName ib] ReadOnly, CountCall None (Some (only x))]))"
proof -
  have a: "count db (b\<lparr>state := (state b)\<lparr>order := ord, limitCount := lim, offsetCount := off\<rparr>\<rparr>) run
     = count db b run"
    by (simp add: count_def Let_def split: option.splits sum.splits engine_run.splits)
  have b: "db (storeName b) = Some store \<and> source_of store (indexName (state b)) = Inr source \<longrightarrow>
      count db b Completes
        = (Fulfilled (length (matching source (keyRange (state b)))),
           [TransactionCall [storeName b] ReadOnly,
            CountCall (chosen (indexName (state b))) (keyRange (state b))]) \<and>
      count db b (Fails n (Some e))
        = (Rejected (DOMException e),
           [TransactionCall [storeName b] ReadOnly,
            CountCall (chosen (indexName (state b))) (keyRange (state b))]) \<and>
      count db b (Fails n None)
        = (Rejected Null,
           [TransactionCall [storeName b] ReadOnly,
            CountCall (chosen (indexName (state b))) (keyRange (state b))]) \<and>
      count db b (Aborts n)
        = (Pending,
           [TransactionCall [storeName b] ReadOnly,
            CountCall (chosen (indexName (state b))) (keyRange (state b))])"
    by (simp add: count_resolved)
  have c: "db (ib_storeName ib) = Some st \<and> ib_indexName ib = Some ix \<and> ix \<noteq> [] \<and>
    indexes st ix = Some entries \<longrightarrow>
      count db (offset off (limit l (orderBy ord (ib_equals ib x)))) Completes
        = (Fulfilled (length (filter (\<lambda>(k, v). k = x) entries)),
           [TransactionCall [ib_storeName ib] ReadOnly, CountCall (Some ix) (Some (only x))])"
    by (simp add: count_def Let_def native_count_def matching_def only_includes source_of_def
          truthy_def chosen_def offset_def limit_def orderBy_def ib_equals_def createFinal_def)
  have d: "db (ib_storeName ib) = Some st \<and> ib_indexName ib = None \<longrightarrow>
      count db (offset off (limit l (orderBy ord (ib_equals ib x)))) Completes
        = (Fulfilled (length (filter (\<lambda>(k, v). k = x) (records st))),
           [TransactionCall [ib_storeName ib] ReadOnly, CountCall None (Some (only x))])"
    by (simp add: count_def Let_def native_count_def matching_def only_includes source_of_def
          truthy_def chosen_def offset_def limit_def orderBy_def ib_equals_def createFinal_def)
  from a b c d show ?thesis by blast
qed

theorem count_ignores_order_limit_offset_witness:
  "count
     [''users'' \<mapsto>
        \<lparr>records = [],
         indexes = [''age'' \<mapsto>
           [(Num (25::int), [''age'' \<mapsto> (25::int)]), (Num 30, [''age'' \<mapsto> 30]),
            (Num 30, [''age'' \<mapsto> 30]), (Num 41, [''age'' \<mapsto> 41])]]\<rparr>]
     (ib_equals \<lparr>ib_storeName = ''users'', ib_indexName = Some ''age'', ib_useKey = False,
                 ib_defaults = Map.empty\<rparr> (Num 30))
     (Aborts 0)
   = (Pending,
      [TransactionCall [''users''] ReadOnly, CountCall (Some ''age'') (Some (only (Num 30)))])"
  (is "count ?db ?b (Aborts 0) = _")
proof -
  let ?ix = "[(Num (25::int), [''age'' \<mapsto> (25::int)]), (Num 30, [''age'' \<mapsto> 30]),
            (Num 30, [''age'' \<mapsto> 30]), (Num 41, [''age'' \<mapsto> 41])]"
  let ?store = "\<lparr>records = [], indexes = [''age'' \<mapsto> ?ix]\<rparr>"
  have h: "?db (storeName ?b) = Some ?store \<and> source_of ?store (indexName (state ?b)) = Inr ?ix"
    by (simp add: ib_equals_def createFinal_def source_of_def truthy_def)
  from count_ignores_order_limit_offset
    [where db = ?db and b = ?b and store = ?store and source = ?ix and n = 0,
     THEN conjunct2, THEN conjunct1, THEN mp, OF h]
  show ?thesis
    by (simp add: ib_equals_def createFinal_def chosen_def truthy_def)
qed

subsection \<open>The first match\<close>










end
